theory Spec2Isabelle
  imports Main
begin

section \<open>Python primitives used by the two source files\<close>

text \<open>
  Texts are modelled as \<^typ>\<open>string\<close>: every \<^typ>\<open>char\<close> stands for one code point
  below 256. On that range the classes used by the source are:
  \<^item> \<^verbatim>\<open>\d\<close> of \<^verbatim>\<open>re\<close> on a \<^verbatim>\<open>str\<close> pattern: the decimal digits \<^verbatim>\<open>0\<close> to \<^verbatim>\<open>9\<close>;
  \<^item> \<^verbatim>\<open>.\<close> of \<^verbatim>\<open>re\<close> without flags: every character except the line feed;
  \<^item> the whitespace of \<^verbatim>\<open>str.strip()\<close>: code points 9 to 13, 28 to 32, 133 and 160.
  Integers are Python's unbounded integers (\<^typ>\<open>int\<close>); the interpreter's optional
  limit on the number of digits that \<^verbatim>\<open>int()\<close> converts is not part of the model.
\<close>

definition is_digit :: "char \<Rightarrow> bool" where
  "is_digit c = (c \<in> set ''0123456789'')"

definition dot :: "char \<Rightarrow> bool" where
  "dot c = (c \<noteq> CHR 0x0A)"

definition isspace :: "char \<Rightarrow> bool" where
  "isspace c = ((of_char c :: nat) \<in> {9, 10, 11, 12, 13, 28, 29, 30, 31, 32, 133, 160})"

text \<open>\<^verbatim>\<open>str.strip()\<close>: drop the whitespace at both ends.\<close>

definition strip :: "string \<Rightarrow> string" where
  "strip s = rev (dropWhile isspace (rev (dropWhile isspace s)))"

text \<open>\<^verbatim>\<open>int(s)\<close> on a run of decimal digits, read from the left.\<close>

definition digit_val :: "char \<Rightarrow> nat" where
  "digit_val c = of_char c - 48"

definition py_int :: "string \<Rightarrow> int" where
  "py_int s = foldl (\<lambda>acc c. 10 * acc + int (digit_val c)) 0 s"

text \<open>\<^verbatim>\<open>str(n)\<close> of an integer: its decimal digits, with a sign when negative.\<close>

definition digit_char :: "nat \<Rightarrow> char" where
  "digit_char d = ''0123456789'' ! d"

fun str_nat :: "nat \<Rightarrow> string" where
  "str_nat n = (if n < 10 then [digit_char n] else str_nat (n div 10) @ [digit_char (n mod 10)])"

declare str_nat.simps [simp del]

definition py_str :: "int \<Rightarrow> string" where
  "py_str i = (if i < 0 then CHR ''-'' # str_nat (nat (- i)) else str_nat (nat i))"

text \<open>
  \<^verbatim>\<open>open(path, "r", encoding="utf-8")\<close> followed by \<^verbatim>\<open>read()\<close>: the file is opened in text
  mode with the default \<^verbatim>\<open>newline=None\<close>, so every line ending of the file, whether
  CR LF, a lone CR or LF, reaches the program as one LF.
\<close>

fun universal_newlines :: "string \<Rightarrow> string" where
  "universal_newlines [] = []"
| "universal_newlines [c] = [if c = CHR 0x0D then CHR 0x0A else c]"
| "universal_newlines (c # d # cs) =
     (if c = CHR 0x0D \<and> d = CHR 0x0A then CHR 0x0A # universal_newlines cs
      else if c = CHR 0x0D then CHR 0x0A # universal_newlines (d # cs)
      else c # universal_newlines (d # cs))"

text \<open>Truth value of the result of \<^verbatim>\<open>dict.get\<close> on a dictionary of strings:
  \<^verbatim>\<open>None\<close> and the empty string are false, every other string is true.\<close>

definition truthy :: "string option \<Rightarrow> bool" where
  "truthy v = (case v of None \<Rightarrow> False | Some s \<Rightarrow> s \<noteq> [])"

section \<open>The pattern of \<^verbatim>\<open>_version.py\<close>\<close>

text \<open>
  \<^verbatim>\<open>pattern = r"(?P<major>\d+).(?P<minor>\d+).(?P<patch>\d+)(?P<rest>.*)"\<close>
  \<^verbatim>\<open>match = re.match(pattern, __version__)\<close>

  \<^verbatim>\<open>re.match\<close> anchors the pattern at the start of the text and runs a backtracking
  search. A greedy repetition of a character class first takes the longest run of the
  class, hands the remaining text to the rest of the pattern, and gives characters back
  one at a time while the rest of the pattern fails. The matcher is written in
  continuation style: \<open>k\<close> is the rest of the pattern.
\<close>

fun try_down :: "(nat \<Rightarrow> 'a option) \<Rightarrow> nat \<Rightarrow> nat \<Rightarrow> 'a option" where
  "try_down f lo 0 = (if lo = 0 then f 0 else None)"
| "try_down f lo (Suc n) =
     (if Suc n < lo then None
      else case f (Suc n) of Some r \<Rightarrow> Some r | None \<Rightarrow> try_down f lo n)"

definition greedy ::
  "(char \<Rightarrow> bool) \<Rightarrow> nat \<Rightarrow> (string \<Rightarrow> string \<Rightarrow> 'a option) \<Rightarrow> string \<Rightarrow> 'a option" where
  "greedy p lo k s = try_down (\<lambda>n. k (take n s) (drop n s)) lo (length (takeWhile p s))"

definition one :: "(char \<Rightarrow> bool) \<Rightarrow> (string \<Rightarrow> 'a option) \<Rightarrow> string \<Rightarrow> 'a option" where
  "one p k s = (case s of [] \<Rightarrow> None | c # r \<Rightarrow> if p c then k r else None)"

record groups =
  major :: string
  minor :: string
  patch :: string
  rest :: string

definition re_match :: "string \<Rightarrow> groups option" where
  "re_match s =
     greedy is_digit 1 (\<lambda>ma. one dot (
     greedy is_digit 1 (\<lambda>mi. one dot (
     greedy is_digit 1 (\<lambda>pa.
     greedy dot 0 (\<lambda>re _. Some \<lparr>major = ma, minor = mi, patch = pa, rest = re\<rparr>)))))) s"

section \<open>Module \<^verbatim>\<open>alpaca_kernel/_version.py\<close>\<close>

text \<open>
  The two ways the files can fail: \<open>ReadError\<close> stands for the exception of \<^verbatim>\<open>open\<close> or
  \<^verbatim>\<open>read\<close> on a file that is missing, unreadable or not UTF-8; \<open>AssertionError\<close> is the
  failed \<^verbatim>\<open>assert match is not None\<close>.
\<close>

datatype error = ReadError | AssertionError

datatype part = PInt int | PStr string

text \<open>
  The names the module binds, in the order it binds them. A name is \<open>None\<close> until its
  assignment has run. The contents of the file \<^verbatim>\<open>VERSION\<close> are the input, as the decoded
  characters of the file before the translation of line endings; \<open>None\<close> is a file that
  cannot be opened or read.
\<close>

record namespace =
  dunder_version :: "string option"
  version_info :: "part list option"
  kernel_protocol_version_info :: "(int \<times> int) option"
  kernel_protocol_version :: "string option"

definition unbound :: namespace where
  "unbound = \<lparr>dunder_version = None, version_info = None,
     kernel_protocol_version_info = None, kernel_protocol_version = None\<rparr>"

definition get_version :: "string option \<Rightarrow> error + string" where
  "get_version file = (case file of None \<Rightarrow> Inl ReadError | Some text \<Rightarrow> Inr (strip (universal_newlines text)))"

definition parts :: "groups \<Rightarrow> part list" where
  "parts m =
     (let ps = map (\<lambda>g. PInt (py_int (g m))) [major, minor, patch]
      in if rest m \<noteq> [] then ps @ [PStr (rest m)] else ps)"

definition format2 :: "int \<times> int \<Rightarrow> string" where
  "format2 p = py_str (fst p) @ ''.'' @ py_str (snd p)"

definition exec_module :: "string option \<Rightarrow> namespace \<times> error option" where
  "exec_module file =
     (case get_version file of
        Inl e \<Rightarrow> (unbound, Some e)
      | Inr v \<Rightarrow>
          let ns1 = unbound\<lparr>dunder_version := Some v\<rparr> in
          (case re_match v of
             None \<Rightarrow> (ns1, Some AssertionError)
           | Some m \<Rightarrow>
               let ns2 = ns1\<lparr>version_info := Some (parts m)\<rparr>;
                   ns3 = ns2\<lparr>kernel_protocol_version_info := Some (5, 3)\<rparr>;
                   ns4 = ns3\<lparr>kernel_protocol_version :=
                           Some (format2 (the (kernel_protocol_version_info ns3)))\<rparr>
               in (ns4, None)))"

section \<open>Script \<^verbatim>\<open>setup.py\<close>\<close>

text \<open>
  The keyword arguments of the call of \<^verbatim>\<open>setup\<close>. The inputs are the contents of
  \<^verbatim>\<open>README.md\<close> and \<^verbatim>\<open>VERSION\<close> (\<open>None\<close> when unreadable), the process environment,
  and the result of \<^verbatim>\<open>find_packages()\<close>, which scans the file system.
\<close>

record setup_args =
  name :: string
  version :: string
  author :: string
  author_email :: string
  description :: string
  long_description :: string
  long_description_content_type :: string
  url :: string
  project_urls :: "(string \<times> string) list"
  license :: string
  packages :: "string list"
  package_data :: "(string \<times> string list) list"
  install_requires :: "string list"

definition setup_py ::
  "string option \<Rightarrow> string option \<Rightarrow> (string \<rightharpoonup> string) \<Rightarrow> string list \<Rightarrow> error + setup_args" where
  "setup_py readme version_file environ found =
     (case readme of
        None \<Rightarrow> Inl ReadError
      | Some long \<Rightarrow>
         (case version_file of
            None \<Rightarrow> Inl ReadError
          | Some text \<Rightarrow>
              let v = strip (universal_newlines text);
                  reqs = [''matplotlib'', ''numpy'', ''pyserial''];
                  reqs' = (if truthy (environ ''CONDA_BUILD'') then [] else reqs)
              in Inr \<lparr>name = ''alpaca_kernel_2'',
                      version = v,
                      author = ''Thijn Hoekstra; Krzysztof Zablocki'',
                      author_email = ''kzablocki@tudelft.nl'',
                      description = ''Fork of jupyter_micropython_kernel and IPythonkernel'',
                      long_description = universal_newlines long,
                      long_description_content_type = ''text/markdown'',
                      url = ''https://github.com/NB-TUDelft/alpaca_kernel_2'',
                      project_urls =
                        [(''Bug Tracker'', ''https://github.com/NB-TUDelft/alpaca_kernel_2'')],
                      license = ''MIT'',
                      packages = found,
                      package_data = [([], [''resources/*'', ''resources/*.png''])],
                      install_requires = reqs'\<rparr>))"

section \<open>The shape the specification names\<close>

text \<open>
  The specification states the accepted shape as \<^verbatim>\<open>^\d+\.\d+\.\d+\<close>: three runs of
  digits separated by full stops, at the start of the text. This definition follows the
  specification's pattern, with the matcher of the source; it is compared with
  \<open>re_match\<close> below.
\<close>

definition full_stop :: "char \<Rightarrow> bool" where
  "full_stop c = (c = CHR ''.'')"

definition spec_shape :: "string \<Rightarrow> bool" where
  "spec_shape s =
     (greedy is_digit 1 (\<lambda>_. one full_stop (
      greedy is_digit 1 (\<lambda>_. one full_stop (
      greedy is_digit 1 (\<lambda>_ _. Some ()))))) s \<noteq> None)"


section \<open>The backtracking matcher\<close>

lemma try_down_first: "lo \<le> n \<Longrightarrow> f n = Some r \<Longrightarrow> try_down f lo n = Some r"
  by (cases n) auto

lemma try_down_SomeD:
  "try_down f lo n = Some r \<Longrightarrow> \<exists>m. lo \<le> m \<and> m \<le> n \<and> f m = Some r"
proof (induction n)
  case 0
  then show ?case by (auto split: if_splits)
next
  case (Suc n)
  show ?case
  proof (cases "f (Suc n)")
    case None
    with Suc.prems have "try_down f lo n = Some r" by (auto split: if_splits)
    with Suc.IH obtain m where "lo \<le> m" "m \<le> n" "f m = Some r" by blast
    then show ?thesis by (intro exI [of _ m]) simp
  next
    case (Some a)
    with Suc.prems have "lo \<le> Suc n" "f (Suc n) = Some r" by (auto split: if_splits)
    then show ?thesis by blast
  qed
qed

lemma try_down_below: "n < lo \<Longrightarrow> try_down f lo n = None"
  by (cases n) auto

lemma take_run: "take (length (takeWhile p s)) s = takeWhile p s"
  by (induction s) auto

lemma drop_run: "drop (length (takeWhile p s)) s = dropWhile p s"
  by (induction s) auto

lemma greedy_first:
  "lo \<le> length (takeWhile p s) \<Longrightarrow> k (takeWhile p s) (dropWhile p s) = Some r \<Longrightarrow>
   greedy p lo k s = Some r"
  unfolding greedy_def by (rule try_down_first) (simp_all add: take_run drop_run)

lemma greedy_SomeD:
  assumes "greedy p lo k s = Some r"
  shows "\<exists>n. lo \<le> n \<and> n \<le> length (takeWhile p s) \<and> k (take n s) (drop n s) = Some r"
  using assms unfolding greedy_def by (rule try_down_SomeD)

lemma greedy_no_run: "length (takeWhile p s) < lo \<Longrightarrow> greedy p lo k s = None"
  unfolding greedy_def by (rule try_down_below)

lemma one_SomeD: "one p k s = Some r \<Longrightarrow> \<exists>c t. s = c # t \<and> p c \<and> k t = Some r"
  by (auto simp: one_def split: list.splits if_splits)

lemma one_Cons: "p c \<Longrightarrow> one p k (c # t) = k t"
  by (simp add: one_def)

text \<open>The last two groups: the first attempt of both repetitions succeeds.\<close>

lemma patch_rest:
  "greedy is_digit 1 (\<lambda>pa. greedy dot 0 (\<lambda>re _. Some (g pa re))) s =
   (if takeWhile is_digit s = [] then None
    else Some (g (takeWhile is_digit s) (takeWhile dot (dropWhile is_digit s))))"
proof (cases "takeWhile is_digit s = []")
  case True
  then show ?thesis by (simp add: greedy_no_run)
next
  case False
  have "greedy dot 0 (\<lambda>re _. Some (g (takeWhile is_digit s) re)) (dropWhile is_digit s)
        = Some (g (takeWhile is_digit s) (takeWhile dot (dropWhile is_digit s)))"
    by (rule greedy_first) simp_all
  moreover from False have "1 \<le> length (takeWhile is_digit s)"
    by (cases "takeWhile is_digit s") simp_all
  ultimately have "greedy is_digit 1 (\<lambda>pa. greedy dot 0 (\<lambda>re _. Some (g pa re))) s
        = Some (g (takeWhile is_digit s) (takeWhile dot (dropWhile is_digit s)))"
    by (intro greedy_first [where k = "\<lambda>pa. greedy dot 0 (\<lambda>re _. Some (g pa re))"]) simp_all
  with False show ?thesis by simp
qed

section \<open>Digits, decimal text and stripping\<close>

lemma digit_not_space: "is_digit c \<Longrightarrow> \<not> isspace c"
  by (auto simp: is_digit_def isspace_def)

lemma digit_dot: "is_digit c \<Longrightarrow> dot c"
  by (auto simp: is_digit_def dot_def)

lemma full_stop_char [simp]: "\<not> is_digit CHR ''.''" "dot CHR ''.''" "\<not> isspace CHR ''.''"
  by (simp_all add: is_digit_def dot_def isspace_def)

lemma digit_char_digit: "d < 10 \<Longrightarrow> is_digit (digit_char d)"
  unfolding is_digit_def digit_char_def by (rule nth_mem) simp

lemma digit_val_char: "d < 10 \<Longrightarrow> digit_val (digit_char d) = d"
proof -
  assume "d < 10"
  then have "d \<in> {0, 1, 2, 3, 4, 5, 6, 7, 8, 9}" by auto
  then show ?thesis by (auto simp: digit_val_def digit_char_def)
qed

lemma str_nat_not_Nil: "str_nat n \<noteq> []"
  by (subst str_nat.simps) simp

lemma str_nat_digits: "c \<in> set (str_nat n) \<Longrightarrow> is_digit c"
proof (induction n arbitrary: c rule: str_nat.induct)
  case (1 n)
  show ?case
  proof (cases "n < 10")
    case True
    with "1.prems" show ?thesis
      by (subst (asm) str_nat.simps) (simp add: digit_char_digit)
  next
    case False
    then have "str_nat n = str_nat (n div 10) @ [digit_char (n mod 10)]"
      by (subst str_nat.simps) simp
    with "1.prems" have "c \<in> set (str_nat (n div 10)) \<or> c = digit_char (n mod 10)"
      by auto
    with False "1.IH" show ?thesis by (auto simp: digit_char_digit)
  qed
qed

lemma py_int_snoc: "py_int (s @ [c]) = 10 * py_int s + int (digit_val c)"
  by (simp add: py_int_def)

lemma py_int_str_nat: "py_int (str_nat n) = int n"
proof (induction n rule: str_nat.induct)
  case (1 n)
  show ?case
  proof (cases "n < 10")
    case True
    then show ?thesis
      by (subst str_nat.simps) (simp add: py_int_def digit_val_char)
  next
    case False
    with "1.IH" have "py_int (str_nat (n div 10)) = int (n div 10)" by simp
    moreover have "10 * int (n div 10) + int (n mod 10) = int n" by presburger
    ultimately show ?thesis using False
      by (subst str_nat.simps) (simp add: py_int_snoc digit_val_char)
  qed
qed

lemma py_int_zeros: "py_int (replicate k CHR ''0'' @ s) = py_int s"
proof -
  have "foldl (\<lambda>acc c. 10 * acc + int (digit_val c)) 0 (replicate k CHR ''0'') = 0"
    by (induction k) (simp_all add: digit_val_def)
  then show ?thesis by (simp add: py_int_def)
qed

lemma zeros_digits: "c \<in> set (replicate k CHR ''0'') \<Longrightarrow> is_digit c"
  by (simp add: is_digit_def)

lemma run_append:
  assumes "\<forall>c\<in>set d. p c" and "t = [] \<or> \<not> p (hd t)"
  shows "takeWhile p (d @ t) = d" and "dropWhile p (d @ t) = t"
proof -
  from assms(2) have "takeWhile p t = []" "dropWhile p t = t"
    by (cases t; simp)+
  with assms(1) show "takeWhile p (d @ t) = d" "dropWhile p (d @ t) = t"
    by simp_all
qed

lemma strip_id:
  assumes "s \<noteq> []" "\<not> isspace (hd s)" "\<not> isspace (last s)"
  shows "strip s = s"
proof -
  from assms(1,2) have "dropWhile isspace s = s" by (cases s) simp_all
  moreover from assms(1,3) have "dropWhile isspace (rev s) = rev s"
    by (cases "rev s") (simp_all add: last_rev [symmetric])
  ultimately show ?thesis by (simp add: strip_def)
qed

lemma strip_decomp:
  "\<exists>l r. s = l @ strip s @ r \<and> (\<forall>c\<in>set l. isspace c) \<and> (\<forall>c\<in>set r. isspace c)"
proof -
  let ?m = "dropWhile isspace s"
  have a: "s = takeWhile isspace s @ ?m" by simp
  have b: "rev ?m = takeWhile isspace (rev ?m) @ dropWhile isspace (rev ?m)" by simp
  have "?m = rev (dropWhile isspace (rev ?m)) @ rev (takeWhile isspace (rev ?m))"
    by (metis rev_append rev_rev_ident takeWhile_dropWhile_id)
  then have "?m = strip s @ rev (takeWhile isspace (rev ?m))" by (simp add: strip_def)
  with a have "s = takeWhile isspace s @ strip s @ rev (takeWhile isspace (rev ?m))" by simp
  moreover have "\<forall>c\<in>set (takeWhile isspace s). isspace c" by (auto dest: set_takeWhileD)
  moreover have "\<forall>c\<in>set (rev (takeWhile isspace (rev ?m))). isspace c"
    by (auto dest: set_takeWhileD)
  ultimately show ?thesis by blast
qed

lemma strip_ends:
  assumes "strip s \<noteq> []"
  shows "\<not> isspace (hd (strip s))" and "\<not> isspace (last (strip s))"
proof -
  let ?m = "dropWhile isspace s"
  let ?e = "dropWhile isspace (rev ?m)"
  from assms have ne: "?e \<noteq> []" by (simp add: strip_def)
  then have "\<not> isspace (hd ?e)" by (rule hd_dropWhile)
  with ne show "\<not> isspace (last (strip s))" by (simp add: strip_def last_rev)
  from ne have mne: "?m \<noteq> []" by (metis dropWhile.simps(1) rev.simps(1))
  then have h: "\<not> isspace (hd ?m)" by (rule hd_dropWhile)
  from ne obtain q where q: "rev ?m = q @ ?e" by (metis takeWhile_dropWhile_id)
  then have "?m = rev ?e @ rev q" by (metis rev_append rev_rev_ident)
  with ne have "hd ?m = hd (rev ?e)" by (metis hd_append2 rev_is_Nil_conv)
  with h show "\<not> isspace (hd (strip s))" by (simp add: strip_def)
qed

section \<open>Reading a file in text mode\<close>

lemma universal_newlines_id: "CHR 0x0D \<notin> set s \<Longrightarrow> universal_newlines s = s"
  by (induction s rule: universal_newlines.induct) auto

lemma universal_newlines_Cons:
  "c \<noteq> CHR 0x0D \<Longrightarrow> universal_newlines (c # s) = c # universal_newlines s"
  by (cases s) simp_all

lemma universal_newlines_append:
  assumes "xs = [] \<or> last xs \<noteq> CHR 0x0D \<or> ys = [] \<or> hd ys \<noteq> CHR 0x0A"
  shows "universal_newlines (xs @ ys) = universal_newlines xs @ universal_newlines ys"
  using assms
proof (induction xs rule: universal_newlines.induct)
  case 1
  then show ?case by simp
next
  case (2 c)
  then show ?case by (cases ys) auto
next
  case (3 c d cs)
  then show ?case by (auto split: if_splits)
qed

lemma universal_newlines_space:
  "\<forall>c\<in>set s. isspace c \<Longrightarrow> \<forall>c\<in>set (universal_newlines s). isspace c"
  by (induction s rule: universal_newlines.induct) (auto simp: isspace_def)

lemma strip_all_space: "\<forall>c\<in>set s. isspace c \<Longrightarrow> strip s = []"
  by (auto simp: strip_def dest: set_dropWhileD)

lemma strip_pad:
  assumes "m \<noteq> []" "\<not> isspace (hd m)" "\<not> isspace (last m)"
    and "\<forall>c\<in>set l. isspace c" "\<forall>c\<in>set r. isspace c"
  shows "strip (l @ m @ r) = m"
proof -
  from assms(1,2,4) have "dropWhile isspace (l @ m @ r) = m @ r"
    by (cases m) (simp_all add: dropWhile_append3)
  moreover from assms(1,3,5) have "dropWhile isspace (rev r @ rev m) = rev m"
    by (cases m rule: rev_cases) (simp_all add: dropWhile_append3)
  ultimately show ?thesis by (simp add: strip_def)
qed

text \<open>Line endings around the text do not show after stripping; a carriage return inside
  it does.\<close>

lemma strip_universal_newlines:
  assumes "CHR 0x0D \<notin> set (strip t)"
  shows "strip (universal_newlines t) = strip t"
proof -
  from strip_decomp [of t] obtain l r where
    t: "t = l @ strip t @ r" and l: "\<forall>c\<in>set l. isspace c" and r: "\<forall>c\<in>set r. isspace c"
    by blast
  show ?thesis
  proof (cases "strip t = []")
    case True
    with t l r have "\<forall>c\<in>set t. isspace c" by (metis append_Nil set_append Un_iff)
    then have "strip (universal_newlines t) = []"
      by (intro strip_all_space universal_newlines_space)
    with True show ?thesis by simp
  next
    case False
    let ?m = "strip t"
    from strip_ends [OF False] have h: "\<not> isspace (hd ?m)" and e: "\<not> isspace (last ?m)" .
    from h have "hd ?m \<noteq> CHR 0x0A" by (auto simp: isspace_def)
    with False have 1: "universal_newlines (l @ ?m @ r) =
        universal_newlines l @ universal_newlines (?m @ r)"
      by (intro universal_newlines_append) simp
    from e have "last ?m \<noteq> CHR 0x0D" by (auto simp: isspace_def)
    then have 2: "universal_newlines (?m @ r) = universal_newlines ?m @ universal_newlines r"
      by (intro universal_newlines_append) simp
    from assms have 3: "universal_newlines ?m = ?m" by (rule universal_newlines_id)
    from 1 2 3 t have "universal_newlines t = universal_newlines l @ ?m @ universal_newlines r"
      by metis
    moreover have "strip (universal_newlines l @ ?m @ universal_newlines r) = ?m"
      using False h e l r by (intro strip_pad universal_newlines_space)
    ultimately show ?thesis by simp
  qed
qed

lemma digit_not_cr: "is_digit c \<Longrightarrow> c \<noteq> CHR 0x0D"
  by (auto simp: is_digit_def)

section \<open>What the pattern matches\<close>

text \<open>A text in the dotted shape: every repetition succeeds at its first attempt.\<close>

lemma re_match_dotted:
  assumes da: "da \<noteq> []" "\<forall>c\<in>set da. is_digit c"
    and db: "db \<noteq> []" "\<forall>c\<in>set db. is_digit c"
    and dc: "dc \<noteq> []" "\<forall>c\<in>set dc. is_digit c"
    and t: "t = [] \<or> \<not> is_digit (hd t)"
  shows "re_match (da @ ''.'' @ db @ ''.'' @ dc @ t) =
         Some \<lparr>major = da, minor = db, patch = dc, rest = takeWhile dot t\<rparr>"
proof -
  let ?u = "dc @ t"
  let ?w = "db @ CHR ''.'' # ?u"
  let ?v = "da @ CHR ''.'' # ?w"
  let ?K2 = "\<lambda>ma mi. one dot (greedy is_digit 1 (\<lambda>pa.
     greedy dot 0 (\<lambda>re _. Some \<lparr>major = ma, minor = mi, patch = pa, rest = re\<rparr>)))"
  let ?K1 = "\<lambda>ma. one dot (greedy is_digit 1 (?K2 ma))"
  have ru: "takeWhile is_digit ?u = dc" "dropWhile is_digit ?u = t"
    using dc(2) t by (rule run_append)+
  have rw: "takeWhile is_digit ?w = db" "dropWhile is_digit ?w = CHR ''.'' # ?u"
    using db(2) by (simp_all add: run_append)
  have rv: "takeWhile is_digit ?v = da" "dropWhile is_digit ?v = CHR ''.'' # ?w"
    using da(2) by (simp_all add: run_append)
  have 3: "?K2 da db (CHR ''.'' # ?u) =
           Some \<lparr>major = da, minor = db, patch = dc, rest = takeWhile dot t\<rparr>"
    using dc(1)
      patch_rest [where g = "\<lambda>pa re. \<lparr>major = da, minor = db, patch = pa, rest = re\<rparr>" and s = ?u]
    by (simp add: one_Cons ru)
  have "greedy is_digit 1 (?K2 da) ?w =
        Some \<lparr>major = da, minor = db, patch = dc, rest = takeWhile dot t\<rparr>"
  proof (rule greedy_first)
    from db(1) show "1 \<le> length (takeWhile is_digit ?w)"
      unfolding rw by (cases db) simp_all
    from 3 show "?K2 da (takeWhile is_digit ?w) (dropWhile is_digit ?w) =
        Some \<lparr>major = da, minor = db, patch = dc, rest = takeWhile dot t\<rparr>"
      unfolding rw .
  qed
  then have 2: "?K1 da (CHR ''.'' # ?w) =
        Some \<lparr>major = da, minor = db, patch = dc, rest = takeWhile dot t\<rparr>"
    by (simp add: one_Cons)
  have "greedy is_digit 1 ?K1 ?v =
        Some \<lparr>major = da, minor = db, patch = dc, rest = takeWhile dot t\<rparr>"
  proof (rule greedy_first)
    from da(1) show "1 \<le> length (takeWhile is_digit ?v)"
      unfolding rv by (cases da) simp_all
    from 2 show "?K1 (takeWhile is_digit ?v) (dropWhile is_digit ?v) =
        Some \<lparr>major = da, minor = db, patch = dc, rest = takeWhile dot t\<rparr>"
      unfolding rv .
  qed
  then show ?thesis by (simp add: re_match_def)
qed

text \<open>Every match, read back: what each group holds.\<close>

lemma re_match_SomeD:
  assumes "re_match v = Some m"
  shows "\<exists>n1 c1 w n2 c2 u.
           1 \<le> n1 \<and> n1 \<le> length (takeWhile is_digit v) \<and> major m = take n1 v \<and>
           drop n1 v = c1 # w \<and> dot c1 \<and>
           1 \<le> n2 \<and> n2 \<le> length (takeWhile is_digit w) \<and> minor m = take n2 w \<and>
           drop n2 w = c2 # u \<and> dot c2 \<and>
           takeWhile is_digit u \<noteq> [] \<and> patch m = takeWhile is_digit u \<and>
           rest m = takeWhile dot (dropWhile is_digit u)"
proof -
  let ?K2 = "\<lambda>ma mi. one dot (greedy is_digit 1 (\<lambda>pa.
     greedy dot 0 (\<lambda>re _. Some \<lparr>major = ma, minor = mi, patch = pa, rest = re\<rparr>)))"
  let ?K1 = "\<lambda>ma. one dot (greedy is_digit 1 (?K2 ma))"
  from assms have "greedy is_digit 1 ?K1 v = Some m" by (simp add: re_match_def)
  from greedy_SomeD [OF this] obtain n1 where
    n1: "1 \<le> n1" "n1 \<le> length (takeWhile is_digit v)"
    and k1: "?K1 (take n1 v) (drop n1 v) = Some m" by blast
  from one_SomeD [OF k1] obtain c1 w where
    w: "drop n1 v = c1 # w" "dot c1"
    and g2: "greedy is_digit 1 (?K2 (take n1 v)) w = Some m" by blast
  from greedy_SomeD [OF g2] obtain n2 where
    n2: "1 \<le> n2" "n2 \<le> length (takeWhile is_digit w)"
    and k2: "?K2 (take n1 v) (take n2 w) (drop n2 w) = Some m" by blast
  from one_SomeD [OF k2] obtain c2 u where
    u: "drop n2 w = c2 # u" "dot c2"
    and g3: "greedy is_digit 1 (\<lambda>pa. greedy dot 0 (\<lambda>re _.
        Some \<lparr>major = take n1 v, minor = take n2 w, patch = pa, rest = re\<rparr>)) u = Some m"
    by blast
  from g3 have ne: "takeWhile is_digit u \<noteq> []"
    and m: "m = \<lparr>major = take n1 v, minor = take n2 w, patch = takeWhile is_digit u,
                rest = takeWhile dot (dropWhile is_digit u)\<rparr>"
    using patch_rest [where s = u
        and g = "\<lambda>pa re. \<lparr>major = take n1 v, minor = take n2 w, patch = pa, rest = re\<rparr>"]
    by (auto split: if_splits)
  from m have "major m = take n1 v" "minor m = take n2 w" "patch m = takeWhile is_digit u"
    "rest m = takeWhile dot (dropWhile is_digit u)" by simp_all
  with n1 w n2 u ne show ?thesis by blast
qed

lemma re_match_no_digit: "s = [] \<or> \<not> is_digit (hd s) \<Longrightarrow> re_match s = None"
  unfolding re_match_def by (rule greedy_no_run) (cases s; simp)

section \<open>Running the module and the script\<close>

lemma format2_5_3: "format2 (5, 3) = ''5.3''"
  by (simp add: format2_def py_str_def str_nat.simps digit_char_def)

lemma exec_module_match:
  assumes "re_match (strip (universal_newlines text)) = Some m"
  shows "exec_module (Some text) =
    (\<lparr>dunder_version = Some (strip (universal_newlines text)), version_info = Some (parts m),
      kernel_protocol_version_info = Some (5, 3), kernel_protocol_version = Some ''5.3''\<rparr>,
     None)"
  using assms by (simp add: exec_module_def get_version_def unbound_def format2_5_3)

lemma exec_module_no_match:
  assumes "re_match (strip (universal_newlines text)) = None"
  shows "exec_module (Some text) =
    (\<lparr>dunder_version = Some (strip (universal_newlines text)), version_info = None,
      kernel_protocol_version_info = None, kernel_protocol_version = None\<rparr>,
     Some AssertionError)"
  using assms by (simp add: exec_module_def get_version_def unbound_def)

lemma exec_module_unreadable: "exec_module None = (unbound, Some ReadError)"
  by (simp add: exec_module_def get_version_def)

lemma parts_eq:
  "parts m = [PInt (py_int (major m)), PInt (py_int (minor m)), PInt (py_int (patch m))]
             @ (if rest m \<noteq> [] then [PStr (rest m)] else [])"
  by (simp add: parts_def)

text \<open>The three ways the module can end: unreadable file, failed assertion, all names bound.\<close>

lemma exec_module_cases:
  "(file = None \<and> exec_module file = (unbound, Some ReadError)) \<or>
   (\<exists>text. file = Some text \<and> re_match (strip (universal_newlines text)) = None \<and>
      snd (exec_module file) = Some AssertionError \<and>
      version_info (fst (exec_module file)) = None \<and>
      kernel_protocol_version_info (fst (exec_module file)) = None \<and>
      kernel_protocol_version (fst (exec_module file)) = None) \<or>
   (\<exists>text m. file = Some text \<and> re_match (strip (universal_newlines text)) = Some m \<and>
      snd (exec_module file) = None \<and>
      version_info (fst (exec_module file)) = Some (parts m) \<and>
      kernel_protocol_version_info (fst (exec_module file)) = Some (5, 3) \<and>
      kernel_protocol_version (fst (exec_module file)) = Some ''5.3'')"
proof (cases "file")
  case None
  then show ?thesis by (simp add: exec_module_unreadable)
next
  case (Some raw)
  show ?thesis
  proof (cases "re_match (strip (universal_newlines raw))")
    case None
    from exec_module_no_match [OF this] Some None show ?thesis by simp
  next
    case (Some m)
    from exec_module_match [OF this] \<open>file = Some raw\<close> Some show ?thesis by simp
  qed
qed

text \<open>A file in the dotted shape, whatever follows the third number.\<close>

lemma exec_module_dotted:
  assumes da: "da \<noteq> []" "\<forall>c\<in>set da. is_digit c"
    and db: "db \<noteq> []" "\<forall>c\<in>set db. is_digit c"
    and dc: "dc \<noteq> []" "\<forall>c\<in>set dc. is_digit c"
    and t: "t = [] \<or> \<not> is_digit (hd t) \<and> \<not> isspace (last t)"
    and cr: "CHR 0x0D \<notin> set t"
  shows "exec_module (Some (da @ ''.'' @ db @ ''.'' @ dc @ t)) =
    (\<lparr>dunder_version = Some (da @ ''.'' @ db @ ''.'' @ dc @ t),
      version_info = Some ([PInt (py_int da), PInt (py_int db), PInt (py_int dc)]
                           @ (if takeWhile dot t \<noteq> [] then [PStr (takeWhile dot t)] else [])),
      kernel_protocol_version_info = Some (5, 3), kernel_protocol_version = Some ''5.3''\<rparr>,
     None)"
proof -
  let ?v = "da @ ''.'' @ db @ ''.'' @ dc @ t"
  from da have "\<not> isspace (hd ?v)" by (cases da) (auto dest: digit_not_space)
  moreover have "\<not> isspace (last ?v)"
  proof (cases "t = []")
    case True
    with dc show ?thesis by (cases dc rule: rev_cases) (auto dest: digit_not_space)
  next
    case False
    with t show ?thesis by simp
  qed
  moreover from da have "?v \<noteq> []" by simp
  ultimately have "strip ?v = ?v" by (intro strip_id)
  moreover from da(2) db(2) dc(2) cr have "universal_newlines ?v = ?v"
    by (intro universal_newlines_id) (auto dest: digit_not_cr)
  ultimately have s: "strip (universal_newlines ?v) = ?v" by simp
  from t have "t = [] \<or> \<not> is_digit (hd t)" by blast
  with da db dc have "re_match ?v =
      Some \<lparr>major = da, minor = db, patch = dc, rest = takeWhile dot t\<rparr>"
    by (intro re_match_dotted)
  with s have "re_match (strip (universal_newlines ?v)) =
      Some \<lparr>major = da, minor = db, patch = dc, rest = takeWhile dot t\<rparr>" by simp
  from exec_module_match [OF this] s show ?thesis by (simp add: parts_eq)
qed

lemma zeros_str_nat:
  "replicate k CHR ''0'' @ str_nat n \<noteq> []"
  "\<forall>c\<in>set (replicate k CHR ''0'' @ str_nat n). is_digit c"
  "py_int (replicate k CHR ''0'' @ str_nat n) = int n"
  by (auto simp: str_nat_not_Nil py_int_zeros py_int_str_nat dest: str_nat_digits zeros_digits)

text \<open>
  The groups \<open>major\<close>, \<open>minor\<close> and \<open>patch\<close> of a match are non-empty runs of decimal
  digits: \<^verbatim>\<open>int()\<close> is only applied where it cannot raise.
\<close>

lemma groups_are_digits:
  assumes "re_match v = Some m" and "g = major \<or> g = minor \<or> g = patch"
  shows "g m \<noteq> [] \<and> (\<forall>c\<in>set (g m). is_digit c)"
proof -
  have run: "\<And>n (s :: string). 1 \<le> n \<Longrightarrow> n \<le> length (takeWhile is_digit s) \<Longrightarrow>
      take n s \<noteq> [] \<and> (\<forall>c\<in>set (take n s). is_digit c)"
  proof -
    fix n and s :: string
    assume n: "1 \<le> n" "n \<le> length (takeWhile is_digit s)"
    then have "take n s = take n (takeWhile is_digit s)"
      by (metis take_run take_take min.absorb2 min.commute)
    moreover from n have "take n (takeWhile is_digit s) \<noteq> []" by auto
    moreover have "\<forall>c\<in>set (take n (takeWhile is_digit s)). is_digit c"
      by (auto dest: in_set_takeD set_takeWhileD)
    ultimately show "take n s \<noteq> [] \<and> (\<forall>c\<in>set (take n s). is_digit c)" by simp
  qed
  from re_match_SomeD [OF assms(1)] obtain n1 w n2 u where
    1: "1 \<le> n1" "n1 \<le> length (takeWhile is_digit v)" "major m = take n1 v"
    and 2: "1 \<le> n2" "n2 \<le> length (takeWhile is_digit w)" "minor m = take n2 w"
    and 3: "takeWhile is_digit u \<noteq> []" "patch m = takeWhile is_digit u"
    by blast
  from run [OF 1(1,2)] 1(3) have "major m \<noteq> [] \<and> (\<forall>c\<in>set (major m). is_digit c)" by simp
  moreover from run [OF 2(1,2)] 2(3) have "minor m \<noteq> [] \<and> (\<forall>c\<in>set (minor m). is_digit c)"
    by simp
  moreover from 3 have "patch m \<noteq> [] \<and> (\<forall>c\<in>set (patch m). is_digit c)"
    by (auto dest: set_takeWhileD)
  ultimately show ?thesis using assms(2) by blast
qed

lemma setup_py_readable:
  "\<exists>args. setup_py (Some readme) (Some text) environ found = Inr args \<and>
     version args = strip (universal_newlines text) \<and>
     long_description args = universal_newlines readme \<and>
     install_requires args =
       (if truthy (environ ''CONDA_BUILD'') then [] else [''matplotlib'', ''numpy'', ''pyserial''])"
  by (simp add: setup_py_def)

lemma setup_py_unreadable:
  "setup_py None version_file environ found = Inl ReadError"
  "setup_py readme None environ found = Inl ReadError"
  by (simp_all add: setup_py_def split: option.splits)

section \<open>The claims about version resolution\<close>

text \<open>
  Input of the resolver: the contents of the file \<^verbatim>\<open>VERSION\<close>. Resolution succeeds when
  the module runs to its end (\<open>snd (exec_module file) = None\<close>); its value is the name
  \<^verbatim>\<open>version_info\<close>. Resolution fails when the module stops at an error and
  \<^verbatim>\<open>version_info\<close> stays unbound.
\<close>

text \<open>
  Claim C1 says that every version text outside the shape \<^verbatim>\<open>^\d+\.\d+\.\d+\<close> is
  rejected. The separators of the source's pattern are unescaped, so they match any
  character but the line feed: the text \<^verbatim>\<open>1x2y3\<close> is outside the shape of the
  specification, and the module accepts it with \<^verbatim>\<open>version_info = (1, 2, 3)\<close>.
\<close>

theorem unescaped_separator_accepted:
  "\<not> spec_shape ''1x2y3'' \<and>
   exec_module (Some ''1x2y3'') =
    (\<lparr>dunder_version = Some ''1x2y3'', version_info = Some [PInt 1, PInt 2, PInt 3],
      kernel_protocol_version_info = Some (5, 3), kernel_protocol_version = Some ''5.3''\<rparr>,
     None)"
  by code_simp

text \<open>A separator may even be a digit: five digits resolve to three numbers.\<close>

lemma five_digits_accepted:
  "\<not> spec_shape ''12345'' \<and>
   version_info (fst (exec_module (Some ''12345''))) = Some [PInt 1, PInt 3, PInt 5]"
  by code_simp

text \<open>The part of C1 that holds: a text that does not begin with a digit is rejected.\<close>

lemma no_leading_digit_rejected:
  assumes "strip (universal_newlines text) = [] \<or> \<not> is_digit (hd (strip (universal_newlines text)))"
  shows "snd (exec_module (Some text)) = Some AssertionError"
    and "version_info (fst (exec_module (Some text))) = None"
  using exec_module_no_match [OF re_match_no_digit [OF assms]] by simp_all

lemma v_prefix_rejected:
  "snd (exec_module (Some ''v1.2.3'')) = Some AssertionError
   \<and> version_info (fst (exec_module (Some ''v1.2.3''))) = None"
  using no_leading_digit_rejected [of "''v1.2.3''"]
  by (simp add: strip_def isspace_def is_digit_def)

text \<open>
  Claim C2: for all natural numbers \<open>a\<close>, \<open>b\<close>, \<open>c\<close>, the file \<^verbatim>\<open>{a}.{b}.{c}\<close> (decimal
  numbers, nothing after the third) resolves without error to the three-element tuple
  \<open>(a, b, c)\<close>.
\<close>

theorem dotted_triple_resolves:
  "snd (exec_module (Some (str_nat a @ ''.'' @ str_nat b @ ''.'' @ str_nat c))) = None \<and>
   version_info (fst (exec_module (Some (str_nat a @ ''.'' @ str_nat b @ ''.'' @ str_nat c)))) =
     Some [PInt (int a), PInt (int b), PInt (int c)]"
  using exec_module_dotted [of "str_nat a" "str_nat b" "str_nat c" "[]"]
  by (simp add: str_nat_not_Nil py_int_str_nat str_nat_digits)

theorem dotted_triple_resolves_witness:
  "snd (exec_module (Some ''2.0.0'')) = None \<and>
   version_info (fst (exec_module (Some ''2.0.0''))) = Some [PInt 2, PInt 0, PInt 0]"
  using dotted_triple_resolves [of 2 0 0] by (simp add: str_nat.simps digit_char_def)

text \<open>
  Claim C3 as stated fails when the suffix holds a line feed: \<^verbatim>\<open>.*\<close> stops there, and
  the fourth element is only the part of the suffix before it.
\<close>

theorem suffix_cut_at_line_feed:
  "version_info (fst (exec_module (Some ''1.2.3a\<newline>b''))) =
     Some [PInt 1, PInt 2, PInt 3, PStr ''a'']"
  by code_simp

text \<open>Whitespace at the end of the file is stripped before the match, so it never reaches
  the suffix; a suffix of whitespace alone leaves three elements.\<close>

lemma suffix_trailing_space_examples:
  "version_info (fst (exec_module (Some ''1.2.3rc1 ''))) =
     Some [PInt 1, PInt 2, PInt 3, PStr ''rc1'']"
  "version_info (fst (exec_module (Some ''1.2.3 ''))) = Some [PInt 1, PInt 2, PInt 3]"
  by code_simp+

text \<open>A carriage return in the suffix is read as a line feed, and cuts the suffix as well.\<close>

lemma suffix_cut_at_carriage_return:
  "version_info (fst (exec_module (Some (''1.2.3a'' @ CHR 0x0D # ''b'')))) =
     Some [PInt 1, PInt 2, PInt 3, PStr ''a'']"
  by code_simp

text \<open>
  Claim C3 (amended): for all natural numbers \<open>a\<close>, \<open>b\<close>, \<open>c\<close> and every non-empty suffix
  \<open>s\<close> that does not start with a digit, holds no line ending (neither a line feed nor a
  carriage return) and does not end in whitespace, the file \<^verbatim>\<open>{a}.{b}.{c}{s}\<close> resolves without error to the four-element
  tuple \<open>(a, b, c, s)\<close>.
\<close>

theorem dotted_triple_suffix_resolves:
  assumes "s \<noteq> []" and "\<not> is_digit (hd s)" and "CHR 0x0A \<notin> set s" and "CHR 0x0D \<notin> set s"
    and "\<not> isspace (last s)"
  shows "snd (exec_module (Some (str_nat a @ ''.'' @ str_nat b @ ''.'' @ str_nat c @ s))) = None \<and>
    version_info (fst (exec_module (Some (str_nat a @ ''.'' @ str_nat b @ ''.'' @ str_nat c @ s)))) =
      Some [PInt (int a), PInt (int b), PInt (int c), PStr s]"
proof -
  from assms(3) have "takeWhile dot s = s" by (auto simp: dot_def)
  with assms(1,2,4,5) exec_module_dotted [of "str_nat a" "str_nat b" "str_nat c" s]
  show ?thesis by (simp add: str_nat_not_Nil py_int_str_nat str_nat_digits)
qed

theorem dotted_triple_suffix_resolves_witness:
  "version_info (fst (exec_module (Some ''1.4.2rc1''))) =
     Some [PInt 1, PInt 4, PInt 2, PStr ''rc1'']
   \<and> version_info (fst (exec_module (Some ''10.20.30-beta+build5''))) =
       Some [PInt 10, PInt 20, PInt 30, PStr ''-beta+build5'']"
  using dotted_triple_suffix_resolves [of "''rc1''" 1 4 2]
    dotted_triple_suffix_resolves [of "''-beta+build5''" 10 20 30]
  by (simp add: str_nat.simps digit_char_def is_digit_def isspace_def)

text \<open>
  Claim C4 as stated fails on a file that does not pass the assertion: the module stops
  before the two assignments, and the protocol constants are never bound.
\<close>

theorem protocol_version_unbound_after_assertion:
  "snd (exec_module (Some ''v1.2.3'')) = Some AssertionError
   \<and> kernel_protocol_version_info (fst (exec_module (Some ''v1.2.3''))) = None
   \<and> kernel_protocol_version (fst (exec_module (Some ''v1.2.3''))) = None"
  by code_simp

text \<open>
  Claim C4 (amended): for every contents of the file \<^verbatim>\<open>VERSION\<close> on which the module
  runs to its end, \<^verbatim>\<open>kernel_protocol_version_info\<close> is \<open>(5, 3)\<close> and
  \<^verbatim>\<open>kernel_protocol_version\<close> is \<^verbatim>\<open>"5.3"\<close>, whatever version was resolved.
\<close>

theorem protocol_version_constants:
  assumes "snd (exec_module file) = None"
  shows "kernel_protocol_version_info (fst (exec_module file)) = Some (5, 3)
     \<and> kernel_protocol_version (fst (exec_module file)) = Some ''5.3''"
  using exec_module_cases [of "file"] assms by (auto simp: unbound_def)

theorem protocol_version_constants_witness:
  "snd (exec_module (Some ''2.1.0'')) = None
   \<and> kernel_protocol_version_info (fst (exec_module (Some ''2.1.0''))) = Some (5, 3)
   \<and> kernel_protocol_version (fst (exec_module (Some ''2.1.0''))) = Some ''5.3''"
proof -
  have h: "snd (exec_module (Some ''2.1.0'')) = None" by code_simp
  from h protocol_version_constants [OF h] show ?thesis by simp
qed

text \<open>
  Claim C7: whenever resolution succeeds, \<^verbatim>\<open>version_info\<close> has three or four elements;
  the first three are the integers read from the groups \<open>major\<close>, \<open>minor\<close> and \<open>patch\<close> of
  the match, and a fourth element is present exactly when the group \<open>rest\<close> is not empty
  (it is then that group).
\<close>

theorem version_info_shape:
  assumes "snd (exec_module file) = None"
  shows "\<exists>text m vi. file = Some text \<and> re_match (strip (universal_newlines text)) = Some m \<and>
           version_info (fst (exec_module file)) = Some vi \<and>
           (length vi = 3 \<or> length vi = 4) \<and>
           take 3 vi = [PInt (py_int (major m)), PInt (py_int (minor m)), PInt (py_int (patch m))] \<and>
           (length vi = 4 \<longleftrightarrow> rest m \<noteq> []) \<and>
           (rest m \<noteq> [] \<longrightarrow> vi ! 3 = PStr (rest m))"
proof -
  from exec_module_cases [of "file"] assms obtain raw m where
    f: "file = Some raw" and m: "re_match (strip (universal_newlines raw)) = Some m"
    and vi: "version_info (fst (exec_module file)) = Some (parts m)"
    by (auto simp: unbound_def)
  have "length (parts m) = 3 \<or> length (parts m) = 4"
    "take 3 (parts m) = [PInt (py_int (major m)), PInt (py_int (minor m)), PInt (py_int (patch m))]"
    "length (parts m) = 4 \<longleftrightarrow> rest m \<noteq> []"
    "rest m \<noteq> [] \<longrightarrow> parts m ! 3 = PStr (rest m)"
    by (simp_all add: parts_eq numeral_3_eq_3)
  with f m vi show ?thesis by blast
qed

theorem version_info_shape_witness:
  "snd (exec_module (Some ''1.4.2rc1'')) = None \<and>
   (\<exists>vi. version_info (fst (exec_module (Some ''1.4.2rc1''))) = Some vi \<and> length vi = 4)"
proof -
  have h: "snd (exec_module (Some ''1.4.2rc1'')) = None" by code_simp
  have r: "rest (the (re_match (strip ''1.4.2rc1''))) \<noteq> []" by code_simp
  from version_info_shape [OF h] r h show ?thesis by auto
qed

text \<open>
  Claim C8: whenever \<^verbatim>\<open>version_info\<close> has four elements, the fourth is a non-empty
  string that does not begin with a digit: the group \<open>patch\<close> is the whole run of digits
  after the second separator, and the suffix is what follows that run up to the end of
  the line.
\<close>

theorem suffix_not_digit:
  assumes "version_info (fst (exec_module file)) = Some vi" and "length vi = 4"
  shows "\<exists>text m c1 c2 u s. file = Some text \<and> re_match (strip (universal_newlines text)) = Some m \<and>
           strip (universal_newlines text) = major m @ c1 # minor m @ c2 # u \<and>
           patch m = takeWhile is_digit u \<and>
           vi ! 3 = PStr s \<and> s = takeWhile dot (dropWhile is_digit u) \<and>
           s \<noteq> [] \<and> \<not> is_digit (hd s)"
proof -
  from exec_module_cases [of "file"] assms(1) obtain raw m where
    f: "file = Some raw" and m: "re_match (strip (universal_newlines raw)) = Some m"
    and vi: "vi = parts m"
    by (auto simp: unbound_def)
  from assms(2) vi have r: "rest m \<noteq> []" and p: "vi ! 3 = PStr (rest m)"
    by (simp_all add: parts_eq numeral_3_eq_3 split: if_splits)
  from re_match_SomeD [OF m] obtain n1 c1 w n2 c2 u where
    1: "major m = take n1 (strip (universal_newlines raw))" "drop n1 (strip (universal_newlines raw)) = c1 # w"
    and 2: "minor m = take n2 w" "drop n2 w = c2 # u"
    and 3: "patch m = takeWhile is_digit u" "rest m = takeWhile dot (dropWhile is_digit u)"
    by blast
  from 2 have "w = minor m @ c2 # u" by (metis append_take_drop_id)
  with 1 have v: "strip (universal_newlines raw) = major m @ c1 # minor m @ c2 # u" by (metis append_take_drop_id)
  from r 3(2) have ne: "dropWhile is_digit u \<noteq> []"
    by (cases "dropWhile is_digit u") simp_all
  then have "\<not> is_digit (hd (dropWhile is_digit u))" by (rule hd_dropWhile)
  moreover from r 3(2) ne have "hd (rest m) = hd (dropWhile is_digit u)"
    by (cases "dropWhile is_digit u") (auto split: if_splits)
  ultimately have "\<not> is_digit (hd (rest m))" by simp
  with f m v 3 r p show ?thesis by blast
qed

theorem suffix_not_digit_witness:
  "version_info (fst (exec_module (Some ''1.2.34x''))) =
     Some [PInt 1, PInt 2, PInt 34, PStr ''x'']
   \<and> (\<exists>s. [PInt 1, PInt 2, PInt 34, PStr ''x''] ! 3 = PStr s \<and> s \<noteq> [] \<and> \<not> is_digit (hd s))"
proof -
  have h: "version_info (fst (exec_module (Some ''1.2.34x''))) =
      Some [PInt 1, PInt 2, PInt 34, PStr ''x'']"
    by code_simp
  from suffix_not_digit [OF h] h show ?thesis by auto
qed

text \<open>
  Claim C10: numbers written with leading zeros resolve to their values: for all natural
  numbers \<open>a\<close>, \<open>b\<close>, \<open>c\<close> and any count of zeros in front of each, the file resolves
  without error to \<open>(a, b, c)\<close>.
\<close>

theorem leading_zeros_dropped:
  "snd (exec_module (Some (replicate i CHR ''0'' @ str_nat a @ ''.''
                      @ replicate j CHR ''0'' @ str_nat b @ ''.''
                      @ replicate k CHR ''0'' @ str_nat c))) = None \<and>
   version_info (fst (exec_module (Some (replicate i CHR ''0'' @ str_nat a @ ''.''
                      @ replicate j CHR ''0'' @ str_nat b @ ''.''
                      @ replicate k CHR ''0'' @ str_nat c)))) =
     Some [PInt (int a), PInt (int b), PInt (int c)]"
  using exec_module_dotted [of "replicate i CHR ''0'' @ str_nat a"
      "replicate j CHR ''0'' @ str_nat b" "replicate k CHR ''0'' @ str_nat c" "[]"]
    zeros_str_nat [of i a] zeros_str_nat [of j b] zeros_str_nat [of k c]
  by simp

theorem leading_zeros_dropped_witness:
  "snd (exec_module (Some ''007.08.09'')) = None \<and>
   version_info (fst (exec_module (Some ''007.08.09''))) = Some [PInt 7, PInt 8, PInt 9]"
  using leading_zeros_dropped [of 2 7 1 8 1 9]
  by (simp add: str_nat.simps digit_char_def numeral_2_eq_2)

section \<open>The claims about the version string and the dependency list\<close>

text \<open>
  Claim C6 as stated fails on contents with a carriage return inside the text: the file
  is read in text mode, and the version string holds a line feed in its place.
\<close>

theorem carriage_return_read_as_line_feed:
  "dunder_version (fst (exec_module (Some (CHR ''1'' # CHR 0x0D # ''2.3'')))) =
     Some ''1\<newline>2.3'' \<and>
   strip (CHR ''1'' # CHR 0x0D # ''2.3'') = CHR ''1'' # CHR 0x0D # ''2.3''"
  by code_simp

text \<open>
  Claim C6 (amended): for every contents of the file \<^verbatim>\<open>VERSION\<close>, the module's
  \<^verbatim>\<open>__version__\<close> and the \<^verbatim>\<open>version\<close> argument of \<^verbatim>\<open>setup\<close> are both the contents as read
  in text mode (every CR LF and every lone CR turned into LF) with the whitespace at its
  two ends removed. This is the raw contents with the whitespace at its two ends removed
  whenever what is left of them holds no carriage return: the contents are that string
  between two runs of whitespace, and the string neither begins nor ends with whitespace.
\<close>

theorem version_is_stripped_contents:
  "dunder_version (fst (exec_module (Some text))) = Some (strip (universal_newlines text)) \<and>
   (\<exists>args. setup_py (Some readme) (Some text) environ found = Inr args \<and>
      version args = strip (universal_newlines text)) \<and>
   (CHR 0x0D \<notin> set (strip text) \<longrightarrow> strip (universal_newlines text) = strip text) \<and>
   (\<exists>l r. text = l @ strip text @ r \<and> (\<forall>c\<in>set l. isspace c) \<and> (\<forall>c\<in>set r. isspace c)) \<and>
   (strip text \<noteq> [] \<longrightarrow> \<not> isspace (hd (strip text)) \<and> \<not> isspace (last (strip text)))"
proof -
  have "dunder_version (fst (exec_module (Some text))) = Some (strip (universal_newlines text))"
    by (simp add: exec_module_def get_version_def unbound_def Let_def split: option.splits)
  moreover have "\<exists>args. setup_py (Some readme) (Some text) environ found = Inr args \<and>
      version args = strip (universal_newlines text)"
    using setup_py_readable [of readme "text" environ found] by blast
  moreover have "CHR 0x0D \<notin> set (strip text) \<longrightarrow> strip (universal_newlines text) = strip text"
    using strip_universal_newlines [of "text"] by blast
  moreover note strip_decomp [of "text"]
  moreover have "strip text \<noteq> [] \<longrightarrow> \<not> isspace (hd (strip text)) \<and> \<not> isspace (last (strip text))"
    using strip_ends [of "text"] by blast
  ultimately show ?thesis by blast
qed

theorem version_is_stripped_contents_witness:
  "dunder_version (fst (exec_module (Some (''2.1.0'' @ [CHR 0x0D, CHR 0x0A])))) = Some ''2.1.0'' \<and>
   (\<exists>args. setup_py (Some ''# alpaca'') (Some (''2.1.0'' @ [CHR 0x0D, CHR 0x0A])) Map.empty []
      = Inr args \<and> version args = ''2.1.0'') \<and>
   strip (''2.1.0'' @ [CHR 0x0D, CHR 0x0A]) = ''2.1.0'' \<and>
   \<not> isspace (hd ''2.1.0'') \<and> \<not> isspace (last ''2.1.0'')"
proof -
  have a: "strip (''2.1.0'' @ [CHR 0x0D, CHR 0x0A]) = ''2.1.0''"
    by (simp add: strip_def isspace_def)
  then have b: "CHR 0x0D \<notin> set (strip (''2.1.0'' @ [CHR 0x0D, CHR 0x0A]))" by simp
  from version_is_stripped_contents
      [of "''2.1.0'' @ [CHR 0x0D, CHR 0x0A]" "''# alpaca''" Map.empty "[]"] b
  have "dunder_version (fst (exec_module (Some (''2.1.0'' @ [CHR 0x0D, CHR 0x0A])))) =
      Some (strip (''2.1.0'' @ [CHR 0x0D, CHR 0x0A]))"
    and "\<exists>args. setup_py (Some ''# alpaca'') (Some (''2.1.0'' @ [CHR 0x0D, CHR 0x0A])) Map.empty []
      = Inr args \<and> version args = strip (''2.1.0'' @ [CHR 0x0D, CHR 0x0A])"
    and "\<not> isspace (hd (strip (''2.1.0'' @ [CHR 0x0D, CHR 0x0A]))) \<and>
      \<not> isspace (last (strip (''2.1.0'' @ [CHR 0x0D, CHR 0x0A])))"
    by (metis, metis, metis a list.distinct(1))
  then show ?thesis unfolding a using a by blast
qed

text \<open>
  Claim C5: with both files readable, \<^verbatim>\<open>setup\<close> is called; its \<^verbatim>\<open>install_requires\<close> is
  empty when \<^verbatim>\<open>CONDA_BUILD\<close> is set to a non-empty value, and is the list
  \<^verbatim>\<open>['matplotlib', 'numpy', 'pyserial']\<close> when \<^verbatim>\<open>CONDA_BUILD\<close> is not set.
\<close>

theorem install_requires_conda_build:
  "\<exists>args. setup_py (Some readme) (Some text) environ found = Inr args \<and>
     ((\<exists>x. environ ''CONDA_BUILD'' = Some x \<and> x \<noteq> []) \<longrightarrow> install_requires args = []) \<and>
     (environ ''CONDA_BUILD'' = None \<longrightarrow>
        install_requires args = [''matplotlib'', ''numpy'', ''pyserial''])"
  using setup_py_readable [of readme "text" environ found] by (auto simp: truthy_def)

theorem install_requires_conda_build_witness:
  "(\<exists>args. setup_py (Some ''# alpaca'') (Some ''2.1.0'') [''CONDA_BUILD'' \<mapsto> ''1'']
              [''alpaca_kernel''] = Inr args \<and> install_requires args = []) \<and>
   (\<exists>args. setup_py (Some ''# alpaca'') (Some ''2.1.0'') Map.empty
              [''alpaca_kernel''] = Inr args \<and>
            install_requires args = [''matplotlib'', ''numpy'', ''pyserial''])"
  using install_requires_conda_build
      [of "''# alpaca''" "''2.1.0''" "[''CONDA_BUILD'' \<mapsto> ''1'']" "[''alpaca_kernel'']"]
    install_requires_conda_build [of "''# alpaca''" "''2.1.0''" Map.empty "[''alpaca_kernel'']"]
  by simp

text \<open>
  Claim C9: when \<^verbatim>\<open>CONDA_BUILD\<close> is set to the empty string, \<^verbatim>\<open>install_requires\<close> is
  still the list of three; the list is empty only when \<^verbatim>\<open>CONDA_BUILD\<close> is set to a
  non-empty value.
\<close>

theorem install_requires_empty_flag:
  "(environ ''CONDA_BUILD'' = Some [] \<longrightarrow>
      (\<exists>args. setup_py (Some readme) (Some text) environ found = Inr args \<and>
         install_requires args = [''matplotlib'', ''numpy'', ''pyserial''])) \<and>
   ((\<exists>args. setup_py (Some readme) (Some text) environ found = Inr args \<and>
         install_requires args = []) \<longleftrightarrow>
    (\<exists>x. environ ''CONDA_BUILD'' = Some x \<and> x \<noteq> []))"
  using setup_py_readable [of readme "text" environ found]
  by (auto simp: truthy_def split: option.splits if_splits)

theorem install_requires_empty_flag_witness:
  "\<exists>args. setup_py (Some ''# alpaca'') (Some ''2.1.0'') [''CONDA_BUILD'' \<mapsto> []]
             [''alpaca_kernel''] = Inr args \<and>
          install_requires args = [''matplotlib'', ''numpy'', ''pyserial'']"
  using install_requires_empty_flag
      [of "[''CONDA_BUILD'' \<mapsto> []]" "''# alpaca''" "''2.1.0''" "[''alpaca_kernel'']"]
  by simp

end
